theory Spec2Isabelle
  imports Main "HOL-Library.Word"
begin

section \<open>JavaScript values and built-ins used by the screens of App.js\<close>

text \<open>
  Text that the screens inspect (titles, colleges, dates, the query, the payment status)
  is a JavaScript string: a sequence of 16-bit code units. \<open>latin1\<close> writes such a string
  from its characters when all of them are below 256, as in the literals of the source.
  Identifiers, tokens and messages are only passed on, compared or tested for emptiness;
  they stay character lists.
\<close>

type_synonym code_unit = "16 word"

type_synonym jsstring = "code_unit list"

definition latin1 :: "string \<Rightarrow> jsstring" where
  "latin1 s = map of_char s"

text \<open>
  \<open>String.prototype.toLowerCase\<close> (the Unicode case mapping of the engine) and the
  locale's date formatting (\<open>new Date(d).toLocaleDateString()\<close>) are not code of the app.
  Both are parameters of the model, and the functions that call them take the runtime
  as their first argument.
\<close>

record runtime =
  toLowerCase :: "jsstring \<Rightarrow> jsstring"
  toLocaleDateString :: "jsstring \<Rightarrow> jsstring"

text \<open>
  \<open>trim\<close> strips the code units of ECMAScript's WhiteSpace and LineTerminator from both
  ends; \<open>includes\<close> (here \<open>includes_str\<close>) is the search for a contiguous occurrence
  of code units.
\<close>

definition isWhiteSpace :: "code_unit \<Rightarrow> bool" where
  "isWhiteSpace c =
     List.member
       [0x0009, 0x000A, 0x000B, 0x000C, 0x000D, 0x0020, 0x00A0, 0x1680,
        0x2000, 0x2001, 0x2002, 0x2003, 0x2004, 0x2005, 0x2006, 0x2007, 0x2008, 0x2009,
        0x200A, 0x2028, 0x2029, 0x202F, 0x205F, 0x3000, 0xFEFF] c"

definition trim :: "jsstring \<Rightarrow> jsstring" where
  "trim s = rev (dropWhile isWhiteSpace (rev (dropWhile isWhiteSpace s)))"

fun startsWith :: "jsstring \<Rightarrow> jsstring \<Rightarrow> bool" where
  "startsWith s [] = True"
| "startsWith [] (q # qs) = False"
| "startsWith (c # cs) (q # qs) = (c = q \<and> startsWith cs qs)"

fun includes_str :: "jsstring \<Rightarrow> jsstring \<Rightarrow> bool" where
  "includes_str [] q = (q = [])"
| "includes_str (c # cs) q = (startsWith (c # cs) q \<or> includes_str cs q)"

text \<open>
  A value tested by \<open>if (!x)\<close> or \<open>if (x)\<close>, where \<open>x\<close> is a string or null: null and
  the empty string are falsy.
\<close>

fun truthy :: "string option \<Rightarrow> bool" where
  "truthy None = False"
| "truthy (Some s) = (s \<noteq> [])"

text \<open>The result of an awaited promise: it resolves with a value or it rejects.\<close>

datatype 'a outcome = Resolved 'a | Rejected

section \<open>Data model\<close>

text \<open>
  An event as the server sends it. Only the fields the modelled functions read are kept
  (\<open>_id\<close>, \<open>title\<close>, \<open>college\<close>, \<open>date\<close>); description, type, registrationFee and image
  are display-only. A registration carries the populated event, or null when the event
  has been deleted.
\<close>

record event =
  ev_id :: string
  title :: jsstring
  college :: jsstring
  date :: jsstring

record registration =
  reg_id :: string
  eventId :: "event option"
  paymentStatus :: jsstring

text \<open>Every screen holds \<open>loading\<close> and \<open>error\<close>; the home and registrations screens add data.\<close>

record screen_state =
  loading :: bool
  error :: "string option"

record home_state = screen_state +
  events :: "event list"
  filteredEvents :: "event list"
  searchQuery :: jsstring

record regs_state = screen_state +
  registrations :: "registration list"

text \<open>What a handler does besides setting state, in the order it does it.\<close>

datatype effect =
    GetEvents
  | RegisterForEvent string string
  | GetRegistrations string
  | CancelRegistration string string
  | AlertMsg string string
  | GoBack
  | ConsoleError string

fun isNetworkCall :: "effect \<Rightarrow> bool" where
  "isNetworkCall GetEvents = True"
| "isNetworkCall (RegisterForEvent i t) = True"
| "isNetworkCall (GetRegistrations t) = True"
| "isNetworkCall (CancelRegistration i t) = True"
| "isNetworkCall (AlertMsg a b) = False"
| "isNetworkCall GoBack = False"
| "isNetworkCall (ConsoleError m) = False"

section \<open>HomeScreen\<close>

text \<open>
  \<open>fetchEvents\<close>: the only await is \<open>getEvents()\<close>, and nothing is set before it, so the
  function is its continuation, applied to the state current when the call settles.
\<close>

definition fetchEvents :: "home_state \<Rightarrow> event list outcome \<Rightarrow> home_state" where
  "fetchEvents st response =
     (case response of
        Resolved data \<Rightarrow> st\<lparr>events := data, filteredEvents := data, loading := False\<rparr>
      | Rejected \<Rightarrow>
          st\<lparr>error := Some ''Failed to fetch events. Please try again later.'',
             loading := False\<rparr>)"

text \<open>The predicate of \<open>events.filter\<close> in \<open>handleSearch\<close>.\<close>

definition matchesQuery :: "runtime \<Rightarrow> jsstring \<Rightarrow> event \<Rightarrow> bool" where
  "matchesQuery rt lowerCaseQuery ev =
     (includes_str (toLowerCase rt (title ev)) lowerCaseQuery \<or>
      includes_str (toLowerCase rt (college ev)) lowerCaseQuery \<or>
      includes_str (toLowerCase rt (toLocaleDateString rt (date ev))) lowerCaseQuery)"

definition handleSearch :: "runtime \<Rightarrow> home_state \<Rightarrow> jsstring \<Rightarrow> home_state" where
  "handleSearch rt st query =
     (if trim query = []
      then st\<lparr>searchQuery := query, filteredEvents := events st\<rparr>
      else st\<lparr>searchQuery := query,
              filteredEvents :=
                filter (matchesQuery rt (toLowerCase rt query)) (events st)\<rparr>)"

definition clearSearch :: "home_state \<Rightarrow> home_state" where
  "clearSearch st = st\<lparr>searchQuery := [], filteredEvents := events st\<rparr>"

text \<open>What HomeScreen returns: the spinner, the error-only view, or the search box and list.\<close>

datatype home_view =
    HomeLoading
  | HomeError string
  | HomeList jsstring "event list"

definition HomeScreen :: "home_state \<Rightarrow> home_view" where
  "HomeScreen st =
     (if loading st then HomeLoading
      else if truthy (error st) then HomeError (the (error st))
      else HomeList (searchQuery st) (filteredEvents st))"

text \<open>The state of the first render: \<open>useState\<close>'s initial values.\<close>

definition homeInitial :: home_state where
  "homeInitial =
     \<lparr>loading = True, error = None, events = [], filteredEvents = [], searchQuery = []\<rparr>"

subsection \<open>The words of the specification, for comparison\<close>

text \<open>
  A substring is a contiguous part. White space is written here by the ranges of the
  Unicode tables (the controls TAB to CR, the space separators, the line and paragraph
  separators and the byte order mark), not by the list \<open>trim\<close> uses. Lowercasing is the
  runtime's.
\<close>

definition isSubstringOf :: "jsstring \<Rightarrow> jsstring \<Rightarrow> bool" where
  "isSubstringOf q s = (\<exists>us vs. s = us @ q @ vs)"

definition specWhiteSpace :: "code_unit \<Rightarrow> bool" where
  "specWhiteSpace c =
     (c = 0x0020 \<or> (0x0009 \<le> c \<and> c \<le> 0x000D) \<or> c = 0x00A0 \<or> c = 0x1680 \<or>
      (0x2000 \<le> c \<and> c \<le> 0x200A) \<or> c = 0x2028 \<or> c = 0x2029 \<or> c = 0x202F \<or>
      c = 0x205F \<or> c = 0x3000 \<or> c = 0xFEFF)"

definition isBlank :: "jsstring \<Rightarrow> bool" where
  "isBlank q = (\<forall>c \<in> set q. specWhiteSpace c)"

definition specMatches :: "runtime \<Rightarrow> jsstring \<Rightarrow> event \<Rightarrow> bool" where
  "specMatches rt query ev =
     (isSubstringOf (toLowerCase rt query) (toLowerCase rt (title ev)) \<or>
      isSubstringOf (toLowerCase rt query) (toLowerCase rt (college ev)) \<or>
      isSubstringOf (toLowerCase rt query) (toLowerCase rt (toLocaleDateString rt (date ev))))"

section \<open>EventDetailsScreen\<close>

text \<open>
  \<open>handleRegister\<close> awaits the token read and then \<open>registerForEvent\<close>; the outcomes of
  the two awaits are arguments. The screen's state is \<open>loading\<close> and \<open>error\<close> only.
\<close>

definition handleRegister ::
  "event \<Rightarrow> screen_state \<Rightarrow> string option outcome \<Rightarrow> unit outcome
     \<Rightarrow> screen_state \<times> effect list" where
  "handleRegister event st tokenRead response =
     (let st1 = st\<lparr>loading := True, error := None\<rparr> in
      case tokenRead of
        Rejected \<Rightarrow>
          (st1\<lparr>error := Some ''Failed to register for the event. Please try again.'',
               loading := False\<rparr>,
           [ConsoleError ''Registration error:''])
      | Resolved token \<Rightarrow>
          if \<not> truthy token
          then (st1\<lparr>error := Some ''Please log in to register for an event.'',
                    loading := False\<rparr>, [])
          else (case response of
                  Rejected \<Rightarrow>
                    (st1\<lparr>error := Some ''Failed to register for the event. Please try again.'',
                         loading := False\<rparr>,
                     [RegisterForEvent (ev_id event) (the token),
                      ConsoleError ''Registration error:''])
                | Resolved u \<Rightarrow>
                    (st1\<lparr>loading := False\<rparr>,
                     [RegisterForEvent (ev_id event) (the token),
                      AlertMsg ''Success'' ''Registration successful!'',
                      GoBack])))"

section \<open>MyRegistrationsScreen\<close>

text \<open>
  \<open>fetchRegistrations\<close> in the pieces between its awaits: what runs at the call, what
  runs when the token read settles (the flag says whether \<open>getRegistrations\<close> was called
  and is awaited), and what runs when that call settles.
\<close>

definition fetchRegistrations_catch :: "regs_state \<Rightarrow> regs_state \<times> effect list" where
  "fetchRegistrations_catch st =
     (st\<lparr>error := Some ''Failed to fetch registrations. Please try again later.'',
         loading := False\<rparr>,
      [ConsoleError ''Fetch registrations error:''])"

definition fetchRegistrations_start :: "regs_state \<Rightarrow> regs_state" where
  "fetchRegistrations_start st = st\<lparr>loading := True\<rparr>"

definition fetchRegistrations_token ::
  "regs_state \<Rightarrow> string option outcome \<Rightarrow> regs_state \<times> effect list \<times> bool" where
  "fetchRegistrations_token st tokenRead =
     (case tokenRead of
        Rejected \<Rightarrow>
          (fst (fetchRegistrations_catch st), snd (fetchRegistrations_catch st), False)
      | Resolved token \<Rightarrow>
          if \<not> truthy token
          then (st\<lparr>error := Some ''Please log in to view your registrations.'',
                   loading := False\<rparr>, [], False)
          else (st, [GetRegistrations (the token)], True))"

definition fetchRegistrations_response ::
  "regs_state \<Rightarrow> registration list outcome \<Rightarrow> regs_state \<times> effect list" where
  "fetchRegistrations_response st response =
     (case response of
        Resolved data \<Rightarrow> (st\<lparr>registrations := data, loading := False\<rparr>, [])
      | Rejected \<Rightarrow> fetchRegistrations_catch st)"

definition fetchRegistrations_awaits ::
  "regs_state \<Rightarrow> string option outcome \<Rightarrow> registration list outcome
     \<Rightarrow> regs_state \<times> effect list" where
  "fetchRegistrations_awaits st tokenRead response =
     (case fetchRegistrations_token st tokenRead of
        (st1, fx, awaiting) \<Rightarrow>
          if awaiting
          then (fst (fetchRegistrations_response st1 response),
                fx @ snd (fetchRegistrations_response st1 response))
          else (st1, fx))"

definition fetchRegistrations ::
  "regs_state \<Rightarrow> string option outcome \<Rightarrow> registration list outcome
     \<Rightarrow> regs_state \<times> effect list" where
  "fetchRegistrations st tokenRead response =
     fetchRegistrations_awaits (fetchRegistrations_start st) tokenRead response"

text \<open>
  The handler of the dialog's Yes button, up to its own end: on success it shows the
  alert and calls \<open>fetchRegistrations()\<close> without awaiting it, so only that function's
  first piece has run when the handler is done. The flag says whether the refresh started.
\<close>

definition cancel_onPress ::
  "regs_state \<Rightarrow> string \<Rightarrow> string option outcome \<Rightarrow> unit outcome
     \<Rightarrow> regs_state \<times> effect list \<times> bool" where
  "cancel_onPress st registrationId tokenRead response =
     (case tokenRead of
        Rejected \<Rightarrow>
          (st,
           [AlertMsg ''Error'' ''Failed to cancel registration. Please try again.'',
            ConsoleError ''Cancel registration error:''],
           False)
      | Resolved token \<Rightarrow>
          if \<not> truthy token
          then (st\<lparr>error := Some ''Please log in to cancel a registration.''\<rparr>, [], False)
          else (case response of
                  Rejected \<Rightarrow>
                    (st,
                     [CancelRegistration registrationId (the token),
                      AlertMsg ''Error'' ''Failed to cancel registration. Please try again.'',
                      ConsoleError ''Cancel registration error:''],
                     False)
                | Resolved u \<Rightarrow>
                    (fetchRegistrations_start st,
                     [CancelRegistration registrationId (the token),
                      AlertMsg ''Success'' ''Registration cancelled successfully!''],
                     True)))"

datatype choice = No | Yes

text \<open>
  \<open>handleCancelRegistration\<close> with everything it leads to: the confirmation dialog, the
  button pressed, the handler, and the rest of the refresh the handler started.
\<close>

definition handleCancelRegistration ::
  "regs_state \<Rightarrow> string \<Rightarrow> choice \<Rightarrow> string option outcome \<Rightarrow> unit outcome
     \<Rightarrow> string option outcome \<Rightarrow> registration list outcome
     \<Rightarrow> regs_state \<times> effect list" where
  "handleCancelRegistration st registrationId pressed tokenRead response
       refreshTokenRead refreshResponse =
     (let dialog =
            AlertMsg ''Cancel Registration''
              ''Are you sure you want to cancel this registration?'' in
      case pressed of
        No \<Rightarrow> (st, [dialog])
      | Yes \<Rightarrow>
          (case cancel_onPress st registrationId tokenRead response of
             (st1, fx, refreshing) \<Rightarrow>
               if refreshing
               then (fst (fetchRegistrations_awaits st1 refreshTokenRead refreshResponse),
                     dialog # fx @
                       snd (fetchRegistrations_awaits st1 refreshTokenRead refreshResponse))
               else (st1, dialog # fx)))"

definition getStatusColor :: "runtime \<Rightarrow> jsstring \<Rightarrow> string" where
  "getStatusColor rt status =
     (if toLowerCase rt status = latin1 ''paid'' then ''#28a745''
      else if toLowerCase rt status = latin1 ''pending'' then ''#ffc107''
      else ''#6c757d'')"

text \<open>
  A rendered card: its title, its detail lines, the status badge (text and colour) when
  there is one, and the registration id its Cancel button passes to
  \<open>handleCancelRegistration\<close>.
\<close>

datatype reg_card =
  RegCard (cardTitle: jsstring) (cardDetails: "jsstring list")
    (cardStatus: "(jsstring \<times> string) option") (cancelTarget: string)

definition renderRegistration :: "runtime \<Rightarrow> registration \<Rightarrow> reg_card" where
  "renderRegistration rt item =
     (case eventId item of
        None \<Rightarrow>
          RegCard (latin1 ''Event Not Found'') [latin1 ''This event has been deleted.''] None
            (reg_id item)
      | Some ev \<Rightarrow>
          RegCard (title ev) [college ev, toLocaleDateString rt (date ev)]
            (Some (paymentStatus item, getStatusColor rt (paymentStatus item))) (reg_id item))"

datatype regs_view =
    RegsLoading
  | RegsError string
  | RegsList "reg_card list"

definition MyRegistrationsScreen :: "runtime \<Rightarrow> regs_state \<Rightarrow> regs_view" where
  "MyRegistrationsScreen rt st =
     (if loading st then RegsLoading
      else if truthy (error st) then RegsError (the (error st))
      else RegsList (map (renderRegistration rt) (registrations st)))"

section \<open>The screens together\<close>

text \<open>
  The component states that exist side by side while the app runs. A handler of one
  screen closes over that screen's setters only.
\<close>

record app_state =
  home :: home_state
  eventDetails :: screen_state
  myRegistrations :: regs_state

definition app_handleRegister ::
  "event \<Rightarrow> app_state \<Rightarrow> string option outcome \<Rightarrow> unit outcome
     \<Rightarrow> app_state \<times> effect list" where
  "app_handleRegister event app tokenRead response =
     (app\<lparr>eventDetails := fst (handleRegister event (eventDetails app) tokenRead response)\<rparr>,
      snd (handleRegister event (eventDetails app) tokenRead response))"

section \<open>Focus events and requests in flight\<close>

text \<open>
  \<open>useFocusEffect\<close> calls the fetch on every focus. Each call is a task of its own that
  waits for its promise; promises settle in any order. A task is named by the number of
  fetches started before it.
\<close>

record home_sys =
  homeScreen :: home_state
  getEventsPending :: "nat list"
  getEventsIssued :: nat

datatype home_event =
    HomeFocus
  | GetEventsSettled nat "event list outcome"

fun home_step :: "home_sys \<Rightarrow> home_event \<Rightarrow> home_sys" where
  "home_step s HomeFocus =
     s\<lparr>getEventsPending := getEventsPending s @ [getEventsIssued s],
       getEventsIssued := Suc (getEventsIssued s)\<rparr>"
| "home_step s (GetEventsSettled k response) =
     (if List.member (getEventsPending s) k
      then s\<lparr>homeScreen := fetchEvents (homeScreen s) response,
             getEventsPending := removeAll k (getEventsPending s)\<rparr>
      else s)"

definition home_run :: "home_sys \<Rightarrow> home_event list \<Rightarrow> home_sys" where
  "home_run s evs = foldl home_step s evs"

definition home_mounted :: "home_state \<Rightarrow> home_sys" where
  "home_mounted st = \<lparr>homeScreen = st, getEventsPending = [], getEventsIssued = 0\<rparr>"

record regs_sys =
  regsScreen :: regs_state
  tokenReadPending :: "nat list"
  getRegistrationsPending :: "nat list"
  fetchesStarted :: nat

datatype regs_event =
    RegsFocus
  | TokenReadSettled nat "string option outcome"
  | GetRegistrationsSettled nat "registration list outcome"

fun regs_step :: "regs_sys \<Rightarrow> regs_event \<Rightarrow> regs_sys" where
  "regs_step s RegsFocus =
     s\<lparr>regsScreen := fetchRegistrations_start (regsScreen s),
       tokenReadPending := tokenReadPending s @ [fetchesStarted s],
       fetchesStarted := Suc (fetchesStarted s)\<rparr>"
| "regs_step s (TokenReadSettled k tokenRead) =
     (if List.member (tokenReadPending s) k
      then (case fetchRegistrations_token (regsScreen s) tokenRead of
              (st, fx, awaiting) \<Rightarrow>
                s\<lparr>regsScreen := st,
                  tokenReadPending := removeAll k (tokenReadPending s),
                  getRegistrationsPending :=
                    (if awaiting then getRegistrationsPending s @ [k]
                     else getRegistrationsPending s)\<rparr>)
      else s)"
| "regs_step s (GetRegistrationsSettled k response) =
     (if List.member (getRegistrationsPending s) k
      then s\<lparr>regsScreen := fst (fetchRegistrations_response (regsScreen s) response),
             getRegistrationsPending := removeAll k (getRegistrationsPending s)\<rparr>
      else s)"

definition regs_run :: "regs_sys \<Rightarrow> regs_event list \<Rightarrow> regs_sys" where
  "regs_run s evs = foldl regs_step s evs"

definition regs_mounted :: "regs_state \<Rightarrow> regs_sys" where
  "regs_mounted st =
     \<lparr>regsScreen = st, tokenReadPending = [], getRegistrationsPending = [],
      fetchesStarted = 0\<rparr>"

text \<open>
  The registrations screen after \<open>n\<close> focus events, of which the first \<open>m\<close> have had
  their token read settled with a token.
\<close>

definition regs_focused :: "regs_state \<Rightarrow> nat \<Rightarrow> nat \<Rightarrow> regs_sys" where
  "regs_focused st n m =
     \<lparr>regsScreen = st\<lparr>loading := True\<rparr>, tokenReadPending = [m..<n],
      getRegistrationsPending = [0..<m], fetchesStarted = n\<rparr>"

section \<open>Sample data\<close>

text \<open>
  The sample runtime. Its case mapping is that of \<open>String.prototype.toLowerCase\<close> on
  strings of code units below 256 (A to Z and the capitals 0xC0 to 0xDE but 0xD7 move up
  by 0x20); it is applied to such strings only. Its date format keeps the calendar part
  of an ISO date, which is what a locale with year-month-day dates prints.
\<close>

definition lowerLatin1Unit :: "code_unit \<Rightarrow> code_unit" where
  "lowerLatin1Unit c =
     (if (0x41 \<le> c \<and> c \<le> 0x5A) \<or> (0xC0 \<le> c \<and> c \<le> 0xD6) \<or> (0xD8 \<le> c \<and> c \<le> 0xDE)
      then c + 0x20 else c)"

definition sampleRuntime :: runtime where
  "sampleRuntime = \<lparr>toLowerCase = map lowerLatin1Unit, toLocaleDateString = take 10\<rparr>"

definition hackDay :: event where
  "hackDay =
     \<lparr>ev_id = ''e1'', title = latin1 ''Hack Day'', college = latin1 ''MIT'',
      date = latin1 ''2024-03-15''\<rparr>"

definition danceNight :: event where
  "danceNight =
     \<lparr>ev_id = ''e2'', title = latin1 ''Dance Night'', college = latin1 ''Stanford'',
      date = latin1 ''2024-04-02''\<rparr>"

text \<open>An event whose title has a capital E with acute accent (code unit 0xC9).\<close>

definition cafeNight :: event where
  "cafeNight =
     \<lparr>ev_id = ''e3'', title = latin1 ''CAF'' @ [0xC9] @ latin1 '' NIGHT'',
      college = latin1 ''Sorbonne'', date = latin1 ''2024-05-20''\<rparr>"

definition twoEvents :: home_state where
  "twoEvents =
     \<lparr>loading = False, error = None, events = [hackDay, danceNight],
      filteredEvents = [hackDay, danceNight], searchQuery = []\<rparr>"

definition threeEvents :: home_state where
  "threeEvents =
     \<lparr>loading = False, error = None, events = [hackDay, danceNight, cafeNight],
      filteredEvents = [hackDay, danceNight, cafeNight], searchQuery = []\<rparr>"

definition regR1 :: registration where
  "regR1 = \<lparr>reg_id = ''r1'', eventId = Some hackDay, paymentStatus = latin1 ''paid''\<rparr>"

definition regR2 :: registration where
  "regR2 = \<lparr>reg_id = ''r2'', eventId = None, paymentStatus = latin1 ''pending''\<rparr>"

definition twoRegistrations :: regs_state where
  "twoRegistrations = \<lparr>loading = False, error = None, registrations = [regR1, regR2]\<rparr>"

definition detailsIdle :: screen_state where
  "detailsIdle = \<lparr>loading = False, error = None\<rparr>"

definition sampleApp :: app_state where
  "sampleApp =
     \<lparr>home = twoEvents, eventDetails = detailsIdle, myRegistrations = twoRegistrations\<rparr>"

section \<open>Search\<close>

lemma startsWith_iff: "startsWith s q = (\<exists>vs. s = q @ vs)"
  by (induction s q rule: startsWith.induct) auto

lemma includes_iff: "includes_str s q = isSubstringOf q s"
proof (induction s)
  case Nil
  show ?case by (auto simp: isSubstringOf_def)
next
  case (Cons c cs)
  show ?case
  proof
    assume "includes_str (c # cs) q"
    then consider "startsWith (c # cs) q" | "includes_str cs q" by auto
    then show "isSubstringOf q (c # cs)"
    proof cases
      case 1
      then obtain vs where "c # cs = q @ vs" by (auto simp: startsWith_iff)
      then have "c # cs = [] @ q @ vs" by simp
      then show ?thesis unfolding isSubstringOf_def by blast
    next
      case 2
      with Cons obtain us vs where "cs = us @ q @ vs" by (auto simp: isSubstringOf_def)
      then have "c # cs = (c # us) @ q @ vs" by simp
      then show ?thesis unfolding isSubstringOf_def by blast
    qed
  next
    assume "isSubstringOf q (c # cs)"
    then obtain us vs where eq: "c # cs = us @ q @ vs" by (auto simp: isSubstringOf_def)
    show "includes_str (c # cs) q"
    proof (cases us)
      case Nil
      with eq have "startsWith (c # cs) q" by (auto simp: startsWith_iff)
      then show ?thesis by simp
    next
      case (Cons u us')
      with eq have "cs = us' @ q @ vs" by simp
      then have "isSubstringOf q cs" unfolding isSubstringOf_def by blast
      with Cons.IH show ?thesis by simp
    qed
  qed
qed

lemma dropWhile_all_iff: "(\<forall>x \<in> set (dropWhile P xs). P x) = (\<forall>x \<in> set xs. P x)"
  by (induction xs) auto

lemma control_range:
  "(9 \<le> n \<and> n \<le> 13) = (n = 9 \<or> n = 10 \<or> n = 11 \<or> n = 12 \<or> n = (13::nat))"
  by arith

lemma space_range:
  "(8192 \<le> n \<and> n \<le> 8202) =
     (n = 8192 \<or> n = 8193 \<or> n = 8194 \<or> n = 8195 \<or> n = 8196 \<or> n = 8197 \<or>
      n = 8198 \<or> n = 8199 \<or> n = 8200 \<or> n = 8201 \<or> n = (8202::nat))"
  by arith

lemma isWhiteSpace_iff: "isWhiteSpace c = specWhiteSpace c"
proof -
  have "isWhiteSpace c = (unat c \<in> {9, 10, 11, 12, 13, 32, 160, 5760,
        8192, 8193, 8194, 8195, 8196, 8197, 8198, 8199, 8200, 8201, 8202,
        8232, 8233, 8239, 8287, 12288, 65279})"
    by (simp add: isWhiteSpace_def word_unat_eq_iff)
  also have "\<dots> = specWhiteSpace c"
    unfolding specWhiteSpace_def word_le_nat_alt word_unat_eq_iff
    by (simp add: control_range space_range) blast
  finally show ?thesis .
qed

lemma trim_empty_iff: "(trim q = []) = isBlank q"
proof -
  have "(trim q = []) = (\<forall>x \<in> set q. isWhiteSpace x)"
    by (simp add: trim_def dropWhile_eq_Nil_conv dropWhile_all_iff)
  then show ?thesis by (simp add: isBlank_def isWhiteSpace_iff)
qed

lemma matchesQuery_eq: "matchesQuery rt (toLowerCase rt q) = specMatches rt q"
  by (rule ext) (simp add: matchesQuery_def specMatches_def includes_iff)

subsection \<open>Evaluation of the samples\<close>

lemma lower_HACK: "toLowerCase sampleRuntime (latin1 ''HACK'') = latin1 ''hack''"
  by (simp add: sampleRuntime_def latin1_def lowerLatin1Unit_def)

lemma lower_hack: "toLowerCase sampleRuntime (latin1 ''hack'') = latin1 ''hack''"
  by (simp add: sampleRuntime_def latin1_def lowerLatin1Unit_def)

lemma lower_mit: "toLowerCase sampleRuntime (latin1 ''mit'') = latin1 ''mit''"
  by (simp add: sampleRuntime_def latin1_def lowerLatin1Unit_def)

lemma lower_e_acute: "toLowerCase sampleRuntime [0xE9] = [0xE9]"
  by (simp add: sampleRuntime_def lowerLatin1Unit_def)

lemma hack_matches: "matchesQuery sampleRuntime (latin1 ''hack'') hackDay"
  by (simp add: matchesQuery_def hackDay_def sampleRuntime_def latin1_def lowerLatin1Unit_def)

lemma hack_misses: "\<not> matchesQuery sampleRuntime (latin1 ''hack'') danceNight"
  by (simp add: matchesQuery_def danceNight_def sampleRuntime_def latin1_def
      lowerLatin1Unit_def)

lemma hack_misses_cafe: "\<not> matchesQuery sampleRuntime (latin1 ''hack'') cafeNight"
  by (simp add: matchesQuery_def cafeNight_def sampleRuntime_def latin1_def
      lowerLatin1Unit_def)

lemma mit_matches: "matchesQuery sampleRuntime (latin1 ''mit'') hackDay"
  by (simp add: matchesQuery_def hackDay_def sampleRuntime_def latin1_def lowerLatin1Unit_def)

lemma mit_misses: "\<not> matchesQuery sampleRuntime (latin1 ''mit'') danceNight"
  by (simp add: matchesQuery_def danceNight_def sampleRuntime_def latin1_def
      lowerLatin1Unit_def)

lemma e_acute_matches: "matchesQuery sampleRuntime [0xE9] cafeNight"
  by (simp add: matchesQuery_def cafeNight_def sampleRuntime_def latin1_def
      lowerLatin1Unit_def)

lemma e_acute_misses: "\<not> matchesQuery sampleRuntime [0xE9] hackDay"
  "\<not> matchesQuery sampleRuntime [0xE9] danceNight"
  by (simp_all add: matchesQuery_def hackDay_def danceNight_def sampleRuntime_def latin1_def
      lowerLatin1Unit_def)

lemma trim_HACK: "trim (latin1 ''HACK'') \<noteq> []"
  by (simp add: trim_def isWhiteSpace_def latin1_def)

lemma trim_hack: "trim (latin1 ''hack'') \<noteq> []"
  by (simp add: trim_def isWhiteSpace_def latin1_def)

lemma trim_mit: "trim (latin1 ''mit'') \<noteq> []"
  by (simp add: trim_def isWhiteSpace_def latin1_def)

lemma trim_e_acute: "trim [0xE9] \<noteq> []"
  by (simp add: trim_def isWhiteSpace_def)

lemma search_HACK:
  "filteredEvents (handleSearch sampleRuntime threeEvents (latin1 ''HACK'')) = [hackDay]"
  by (simp add: handleSearch_def threeEvents_def trim_HACK lower_HACK hack_matches hack_misses
      hack_misses_cafe)

lemma search_e_acute:
  "filteredEvents (handleSearch sampleRuntime threeEvents [0xE9]) = [cafeNight]"
  by (simp add: handleSearch_def threeEvents_def trim_e_acute lower_e_acute e_acute_matches
      e_acute_misses)

lemma search_mit:
  "filteredEvents (handleSearch sampleRuntime twoEvents (latin1 ''mit'')) = [hackDay]"
  by (simp add: handleSearch_def twoEvents_def trim_mit lower_mit mit_matches mit_misses)

lemma hackDay_neq_danceNight: "hackDay \<noteq> danceNight"
  by (simp add: hackDay_def danceNight_def)

text \<open>
  C1. The search shows exactly the events whose lowercased title, college or formatted
  date contains the lowercased query, in catalog order; a query that is empty or only
  white space shows the whole catalog. Two queries that are not blank and have the same
  lowercase form show the same events.
\<close>

theorem handleSearch_shows_matches:
  "filteredEvents (handleSearch rt st q) =
     (if isBlank q then events st else filter (specMatches rt q) (events st)) \<and>
   (\<not> isBlank q \<and> \<not> isBlank q' \<and> toLowerCase rt q = toLowerCase rt q' \<longrightarrow>
      filteredEvents (handleSearch rt st q) = filteredEvents (handleSearch rt st q'))"
  by (simp add: handleSearch_def trim_empty_iff matchesQuery_eq)

theorem handleSearch_shows_matches_witness:
  "isBlank [0x20, 0x3000] \<and>
   filteredEvents (handleSearch sampleRuntime threeEvents [0x20, 0x3000]) =
     [hackDay, danceNight, cafeNight] \<and>
   \<not> isBlank (latin1 ''HACK'') \<and>
   filter (specMatches sampleRuntime (latin1 ''HACK'')) [hackDay, danceNight, cafeNight] =
     [hackDay] \<and>
   \<not> isBlank [0xE9] \<and>
   filter (specMatches sampleRuntime [0xE9]) [hackDay, danceNight, cafeNight] = [cafeNight] \<and>
   \<not> isBlank (latin1 ''hack'') \<and>
   filteredEvents (handleSearch sampleRuntime threeEvents (latin1 ''HACK'')) =
     filteredEvents (handleSearch sampleRuntime threeEvents (latin1 ''hack''))"
proof -
  have b: "isBlank [0x20, 0x3000]" by (simp add: isBlank_def specWhiteSpace_def)
  have n1: "\<not> isBlank (latin1 ''HACK'')"
    using trim_HACK by (simp add: trim_empty_iff)
  have n2: "\<not> isBlank [0xE9]"
    using trim_e_acute by (simp add: trim_empty_iff)
  have n3: "\<not> isBlank (latin1 ''hack'')"
    using trim_hack by (simp add: trim_empty_iff)
  have ev: "events threeEvents = [hackDay, danceNight, cafeNight]"
    by (simp add: threeEvents_def)
  from b ev have c1: "filteredEvents (handleSearch sampleRuntime threeEvents [0x20, 0x3000]) =
      [hackDay, danceNight, cafeNight]"
    using handleSearch_shows_matches [of sampleRuntime threeEvents "[0x20, 0x3000]"] by simp
  from n1 ev search_HACK
  have c2: "filter (specMatches sampleRuntime (latin1 ''HACK''))
      [hackDay, danceNight, cafeNight] = [hackDay]"
    using handleSearch_shows_matches [of sampleRuntime threeEvents "latin1 ''HACK''"] by simp
  from n2 ev search_e_acute
  have c3: "filter (specMatches sampleRuntime [0xE9]) [hackDay, danceNight, cafeNight] =
      [cafeNight]"
    using handleSearch_shows_matches [of sampleRuntime threeEvents "[0xE9]"] by simp
  have "toLowerCase sampleRuntime (latin1 ''HACK'') =
      toLowerCase sampleRuntime (latin1 ''hack'')"
    by (simp add: lower_HACK lower_hack)
  with n1 n3
  have c4: "filteredEvents (handleSearch sampleRuntime threeEvents (latin1 ''HACK'')) =
      filteredEvents (handleSearch sampleRuntime threeEvents (latin1 ''hack''))"
    using handleSearch_shows_matches [of sampleRuntime threeEvents "latin1 ''HACK''"
        "latin1 ''hack''"]
    by blast
  from b c1 n1 c2 n2 c3 n3 c4 show ?thesis by blast
qed

text \<open>
  C7. Searching is a projection of the catalog: searching the result again with the same
  query changes nothing, the empty query shows the whole catalog, and the catalog itself
  is never changed by a search.
\<close>

theorem handleSearch_projection:
  "filteredEvents (handleSearch rt (st\<lparr>events := filteredEvents (handleSearch rt st q)\<rparr>) q)
     = filteredEvents (handleSearch rt st q) \<and>
   filteredEvents (handleSearch rt st []) = events st \<and>
   events (handleSearch rt st q) = events st"
  by (simp add: handleSearch_def trim_def)

theorem handleSearch_projection_witness:
  "filteredEvents (handleSearch sampleRuntime
      (twoEvents\<lparr>events := filteredEvents (handleSearch sampleRuntime twoEvents (latin1 ''mit''))\<rparr>)
      (latin1 ''mit''))
     = [hackDay] \<and>
   filteredEvents (handleSearch sampleRuntime twoEvents []) = [hackDay, danceNight] \<and>
   events (handleSearch sampleRuntime twoEvents (latin1 ''mit'')) = [hackDay, danceNight]"
proof -
  have ev: "events twoEvents = [hackDay, danceNight]" by (simp add: twoEvents_def)
  show ?thesis
    using handleSearch_projection [of sampleRuntime twoEvents "latin1 ''mit''"] search_mit ev
    by simp
qed

section \<open>Refreshing the catalog\<close>

text \<open>
  C10. A successful catalog fetch shows the whole fetched list and leaves the query text
  in place; when the query is not blank and some fetched event does not match it, the
  list shown differs from what searching the fetched catalog for that query shows.
\<close>

theorem fetchEvents_ignores_query:
  "filteredEvents (fetchEvents st (Resolved data)) = data \<and>
   events (fetchEvents st (Resolved data)) = data \<and>
   searchQuery (fetchEvents st (Resolved data)) = searchQuery st \<and>
   (trim (searchQuery st) \<noteq> [] \<and>
    (\<exists>e \<in> set data. \<not> matchesQuery rt (toLowerCase rt (searchQuery st)) e) \<longrightarrow>
      filteredEvents (fetchEvents st (Resolved data)) \<noteq>
      filteredEvents (handleSearch rt (fetchEvents st (Resolved data))
        (searchQuery (fetchEvents st (Resolved data)))))"
proof -
  let ?st' = "fetchEvents st (Resolved data)"
  let ?P = "matchesQuery rt (toLowerCase rt (searchQuery st))"
  have a: "filteredEvents ?st' = data" "events ?st' = data" "searchQuery ?st' = searchQuery st"
    by (simp_all add: fetchEvents_def)
  have "filteredEvents ?st' \<noteq> filteredEvents (handleSearch rt ?st' (searchQuery ?st'))"
    if ne: "trim (searchQuery st) \<noteq> []" and ex: "\<exists>e \<in> set data. \<not> ?P e"
  proof -
    from ne a have "filteredEvents (handleSearch rt ?st' (searchQuery ?st')) = filter ?P data"
      by (simp add: handleSearch_def)
    moreover from ex have "filter ?P data \<noteq> data"
      by (simp add: filter_id_conv)
    ultimately show ?thesis using a by simp
  qed
  with a show ?thesis by blast
qed

theorem fetchEvents_ignores_query_witness:
  "trim (searchQuery (handleSearch sampleRuntime twoEvents (latin1 ''mit''))) \<noteq> [] \<and>
   \<not> matchesQuery sampleRuntime
        (toLowerCase sampleRuntime
           (searchQuery (handleSearch sampleRuntime twoEvents (latin1 ''mit''))))
        danceNight \<and>
   filteredEvents (fetchEvents (handleSearch sampleRuntime twoEvents (latin1 ''mit''))
      (Resolved [hackDay, danceNight])) = [hackDay, danceNight] \<and>
   filteredEvents (handleSearch sampleRuntime
      (fetchEvents (handleSearch sampleRuntime twoEvents (latin1 ''mit'')) (Resolved [hackDay, danceNight]))
      (latin1 ''mit'')) \<noteq> [hackDay, danceNight]"
proof -
  let ?st = "handleSearch sampleRuntime twoEvents (latin1 ''mit'')"
  let ?st' = "fetchEvents ?st (Resolved [hackDay, danceNight])"
  have q: "searchQuery ?st = latin1 ''mit''" by (simp add: handleSearch_def)
  have t: "trim (searchQuery ?st) \<noteq> []" using q trim_mit by simp
  have m: "\<not> matchesQuery sampleRuntime (toLowerCase sampleRuntime (searchQuery ?st)) danceNight"
    using q lower_mit mit_misses by simp
  then have ex: "\<exists>e \<in> set [hackDay, danceNight].
      \<not> matchesQuery sampleRuntime (toLowerCase sampleRuntime (searchQuery ?st)) e"
    by simp
  note inst = fetchEvents_ignores_query [of ?st "[hackDay, danceNight]" sampleRuntime]
  from inst have f: "filteredEvents ?st' = [hackDay, danceNight]" by blast
  from inst have q': "searchQuery ?st' = latin1 ''mit''" using q by simp
  from inst t ex have "filteredEvents ?st' \<noteq> filteredEvents (handleSearch sampleRuntime ?st'
      (searchQuery ?st'))"
    by blast
  with f q' have "filteredEvents (handleSearch sampleRuntime ?st' (latin1 ''mit'')) \<noteq> [hackDay, danceNight]"
    by simp
  with t m f show ?thesis by blast
qed

section \<open>Refresh failures\<close>

text \<open>
  C4 as stated fails. After a successful fetch the list is shown; after a following failed
  fetch the events are still in the state, but the screen is the error-only view: the
  render returns it whenever \<open>error\<close> is set, before it looks at the data.
\<close>

theorem failed_fetch_shows_old_list_counterexample:
  "HomeScreen (fetchEvents homeInitial (Resolved [hackDay, danceNight])) =
     HomeList [] [hackDay, danceNight] \<and>
   events (fetchEvents (fetchEvents homeInitial (Resolved [hackDay, danceNight])) Rejected) =
     [hackDay, danceNight] \<and>
   HomeScreen (fetchEvents (fetchEvents homeInitial (Resolved [hackDay, danceNight])) Rejected) =
     HomeError ''Failed to fetch events. Please try again later.''"
  by (simp add: HomeScreen_def fetchEvents_def homeInitial_def)

text \<open>
  C4, amended. A failed catalog fetch leaves the fetched events, the filtered view and the
  query as they were, and the screen then shows the error-only view, whether or not data
  had loaded before.
\<close>

theorem failed_fetch_keeps_data_shows_error:
  "events (fetchEvents st Rejected) = events st \<and>
   filteredEvents (fetchEvents st Rejected) = filteredEvents st \<and>
   searchQuery (fetchEvents st Rejected) = searchQuery st \<and>
   HomeScreen (fetchEvents st Rejected) =
     HomeError ''Failed to fetch events. Please try again later.''"
  by (simp add: HomeScreen_def fetchEvents_def)

theorem failed_fetch_keeps_data_shows_error_witness:
  "events (fetchEvents twoEvents Rejected) = [hackDay, danceNight] \<and>
   filteredEvents (fetchEvents twoEvents Rejected) = [hackDay, danceNight] \<and>
   HomeScreen (fetchEvents twoEvents Rejected) =
     HomeError ''Failed to fetch events. Please try again later.''"
proof -
  have "events twoEvents = [hackDay, danceNight]"
    and "filteredEvents twoEvents = [hackDay, danceNight]"
    by (simp_all add: twoEvents_def)
  then show ?thesis
    using failed_fetch_keeps_data_shows_error [of twoEvents] by simp
qed

section \<open>The session guard\<close>

text \<open>
  C3. When the stored token is absent (null or empty), the ledger refresh, register and
  cancel each set their log-in error and make no network call.
\<close>

theorem absent_token_no_network_call:
  "\<not> truthy token \<Longrightarrow>
   filter isNetworkCall (snd (fetchRegistrations st (Resolved token) r1)) = [] \<and>
   error (fst (fetchRegistrations st (Resolved token) r1)) =
     Some ''Please log in to view your registrations.'' \<and>
   filter isNetworkCall (snd (handleRegister ev dst (Resolved token) r2)) = [] \<and>
   error (fst (handleRegister ev dst (Resolved token) r2)) =
     Some ''Please log in to register for an event.'' \<and>
   filter isNetworkCall
     (snd (handleCancelRegistration st rid Yes (Resolved token) r3 rt r4)) = [] \<and>
   error (fst (handleCancelRegistration st rid Yes (Resolved token) r3 rt r4)) =
     Some ''Please log in to cancel a registration.''"
proof -
  assume t: "\<not> truthy token"
  have a: "fetchRegistrations st (Resolved token) r1 =
      (st\<lparr>loading := True, error := Some ''Please log in to view your registrations.'',
          loading := False\<rparr>, [])"
    using t
    by (simp add: fetchRegistrations_def fetchRegistrations_awaits_def
        fetchRegistrations_token_def fetchRegistrations_start_def)
  have b: "handleRegister ev dst (Resolved token) r2 =
      (dst\<lparr>loading := True, error := None,
           error := Some ''Please log in to register for an event.'', loading := False\<rparr>, [])"
    using t by (simp add: handleRegister_def)
  have c: "handleCancelRegistration st rid Yes (Resolved token) r3 rt r4 =
      (st\<lparr>error := Some ''Please log in to cancel a registration.''\<rparr>,
       [AlertMsg ''Cancel Registration''
          ''Are you sure you want to cancel this registration?''])"
    using t by (simp add: handleCancelRegistration_def cancel_onPress_def)
  show ?thesis by (simp add: a b c)
qed

theorem absent_token_no_network_call_witness:
  "\<not> truthy None \<and>
   filter isNetworkCall
     (snd (fetchRegistrations twoRegistrations (Resolved None) (Resolved []))) = [] \<and>
   error (fst (fetchRegistrations twoRegistrations (Resolved None) (Resolved []))) =
     Some ''Please log in to view your registrations.'' \<and>
   filter isNetworkCall
     (snd (handleRegister hackDay detailsIdle (Resolved None) (Resolved ()))) = [] \<and>
   filter isNetworkCall
     (snd (handleCancelRegistration twoRegistrations ''r1'' Yes (Resolved None) (Resolved ())
        (Resolved None) (Resolved []))) = []"
proof -
  have h: "\<not> truthy None" by simp
  show ?thesis
    using h absent_token_no_network_call [OF h, of twoRegistrations "Resolved []" hackDay
        detailsIdle "Resolved ()" "''r1''" "Resolved ()" "Resolved None" "Resolved []"]
    by simp
qed

section \<open>Cancelling\<close>

text \<open>
  C2 as stated fails. When the cancel call has succeeded and the handler has ended, the
  ledger still holds both entries and the screen shows the spinner of the refresh the
  handler started; when that refresh then fails, the ledger still holds the cancelled
  entry.
\<close>

theorem cancel_removes_entry_counterexample:
  "registrations (fst (cancel_onPress twoRegistrations ''r1'' (Resolved (Some ''tok''))
      (Resolved ()))) = [regR1, regR2] \<and>
   MyRegistrationsScreen sampleRuntime (fst (cancel_onPress twoRegistrations ''r1''
      (Resolved (Some ''tok'')) (Resolved ()))) = RegsLoading \<and>
   registrations (fst (handleCancelRegistration twoRegistrations ''r1'' Yes
      (Resolved (Some ''tok'')) (Resolved ()) (Resolved (Some ''tok'')) Rejected)) =
     [regR1, regR2]"
  by (simp add: cancel_onPress_def handleCancelRegistration_def twoRegistrations_def
      fetchRegistrations_start_def fetchRegistrations_awaits_def fetchRegistrations_token_def
      fetchRegistrations_response_def fetchRegistrations_catch_def MyRegistrationsScreen_def)

text \<open>
  C2, amended. With a token present, the cancel handler itself never changes the ledger.
  A successful cancel calls the server, shows the success alert and starts a ledger
  refresh: it does what \<open>fetchRegistrations\<close> does, whose first effect is the request
  when its token read gives a token. The ledger is then what that refresh returns, and is
  unchanged when the refresh fails or finds no token. After a failed cancel the whole
  state is unchanged, no refresh is started, and the error alert is shown.
\<close>

theorem cancel_refreshes_ledger:
  "truthy token \<Longrightarrow>
   registrations (fst (cancel_onPress st rid (Resolved token) response)) = registrations st \<and>
   cancel_onPress st rid (Resolved token) (Resolved u) =
     (st\<lparr>loading := True\<rparr>,
      [CancelRegistration rid (the token),
       AlertMsg ''Success'' ''Registration cancelled successfully!''],
      True) \<and>
   handleCancelRegistration st rid Yes (Resolved token) (Resolved u)
      refreshTokenRead refreshResponse =
     (fst (fetchRegistrations st refreshTokenRead refreshResponse),
      [AlertMsg ''Cancel Registration'' ''Are you sure you want to cancel this registration?'',
       CancelRegistration rid (the token),
       AlertMsg ''Success'' ''Registration cancelled successfully!''] @
      snd (fetchRegistrations st refreshTokenRead refreshResponse)) \<and>
   (truthy t \<longrightarrow>
      snd (fetchRegistrations st (Resolved t) refreshResponse) \<noteq> [] \<and>
      hd (snd (fetchRegistrations st (Resolved t) refreshResponse)) = GetRegistrations (the t)) \<and>
   registrations (fst (handleCancelRegistration st rid Yes (Resolved token) (Resolved u)
      refreshTokenRead refreshResponse)) =
     (case refreshTokenRead of
        Rejected \<Rightarrow> registrations st
      | Resolved t \<Rightarrow>
          (case refreshResponse of
             Rejected \<Rightarrow> registrations st
           | Resolved data \<Rightarrow> if truthy t then data else registrations st)) \<and>
   handleCancelRegistration st rid Yes (Resolved token) Rejected refreshTokenRead
      refreshResponse =
     (st,
      [AlertMsg ''Cancel Registration'' ''Are you sure you want to cancel this registration?'',
       CancelRegistration rid (the token),
       AlertMsg ''Error'' ''Failed to cancel registration. Please try again.'',
       ConsoleError ''Cancel registration error:''])"
proof -
  assume tok: "truthy token"
  have a: "registrations (fst (cancel_onPress st rid (Resolved token) response)) =
      registrations st"
    using tok
    by (simp add: cancel_onPress_def fetchRegistrations_start_def split: outcome.splits)
  have b: "cancel_onPress st rid (Resolved token) (Resolved u) =
      (st\<lparr>loading := True\<rparr>,
       [CancelRegistration rid (the token),
        AlertMsg ''Success'' ''Registration cancelled successfully!''],
       True)"
    using tok by (simp add: cancel_onPress_def fetchRegistrations_start_def)
  have c: "handleCancelRegistration st rid Yes (Resolved token) (Resolved u)
        refreshTokenRead refreshResponse =
      (fst (fetchRegistrations st refreshTokenRead refreshResponse),
       [AlertMsg ''Cancel Registration''
          ''Are you sure you want to cancel this registration?'',
        CancelRegistration rid (the token),
        AlertMsg ''Success'' ''Registration cancelled successfully!''] @
       snd (fetchRegistrations st refreshTokenRead refreshResponse))"
    using tok
    by (simp add: handleCancelRegistration_def cancel_onPress_def fetchRegistrations_def
        fetchRegistrations_start_def)
  have d: "snd (fetchRegistrations st (Resolved t) refreshResponse) \<noteq> [] \<and>
      hd (snd (fetchRegistrations st (Resolved t) refreshResponse)) = GetRegistrations (the t)"
    if "truthy t"
    using that
    by (simp add: fetchRegistrations_def fetchRegistrations_awaits_def
        fetchRegistrations_token_def)
  have e: "registrations (fst (fetchRegistrations st refreshTokenRead refreshResponse)) =
      (case refreshTokenRead of
         Rejected \<Rightarrow> registrations st
       | Resolved t \<Rightarrow>
           (case refreshResponse of
              Rejected \<Rightarrow> registrations st
            | Resolved data \<Rightarrow> if truthy t then data else registrations st))"
    by (simp add: fetchRegistrations_def fetchRegistrations_start_def
        fetchRegistrations_awaits_def fetchRegistrations_token_def
        fetchRegistrations_response_def fetchRegistrations_catch_def
        split: outcome.splits)
  have f: "handleCancelRegistration st rid Yes (Resolved token) Rejected refreshTokenRead
        refreshResponse =
      (st,
       [AlertMsg ''Cancel Registration''
          ''Are you sure you want to cancel this registration?'',
        CancelRegistration rid (the token),
        AlertMsg ''Error'' ''Failed to cancel registration. Please try again.'',
        ConsoleError ''Cancel registration error:''])"
    using tok by (simp add: handleCancelRegistration_def cancel_onPress_def)
  from a b c d e f show ?thesis by simp
qed

theorem cancel_refreshes_ledger_witness:
  "truthy (Some ''tok'') \<and>
   registrations (fst (cancel_onPress twoRegistrations ''r1'' (Resolved (Some ''tok''))
      (Resolved ()))) = [regR1, regR2] \<and>
   snd (handleCancelRegistration twoRegistrations ''r1'' Yes
      (Resolved (Some ''tok'')) (Resolved ()) (Resolved (Some ''tok'')) (Resolved [regR2])) =
     [AlertMsg ''Cancel Registration'' ''Are you sure you want to cancel this registration?'',
      CancelRegistration ''r1'' ''tok'',
      AlertMsg ''Success'' ''Registration cancelled successfully!'',
      GetRegistrations ''tok''] \<and>
   registrations (fst (handleCancelRegistration twoRegistrations ''r1'' Yes
      (Resolved (Some ''tok'')) (Resolved ()) (Resolved (Some ''tok'')) (Resolved [regR2]))) =
     [regR2] \<and>
   fst (handleCancelRegistration twoRegistrations ''r1'' Yes
      (Resolved (Some ''tok'')) Rejected (Resolved (Some ''tok'')) (Resolved [regR2])) =
     twoRegistrations"
proof -
  have h: "truthy (Some ''tok'')" by simp
  have r: "registrations twoRegistrations = [regR1, regR2]" by (simp add: twoRegistrations_def)
  have fx: "snd (fetchRegistrations twoRegistrations (Resolved (Some ''tok''))
      (Resolved [regR2])) = [GetRegistrations ''tok'']"
    by (simp add: fetchRegistrations_def fetchRegistrations_awaits_def
        fetchRegistrations_token_def fetchRegistrations_response_def)
  note inst = cancel_refreshes_ledger [OF h, of twoRegistrations "''r1''" "Resolved ()" "()"
      "Resolved (Some ''tok'')" "Resolved [regR2]" "Some ''tok''"]
  from inst r have a: "registrations (fst (cancel_onPress twoRegistrations ''r1''
      (Resolved (Some ''tok'')) (Resolved ()))) = [regR1, regR2]"
    by simp
  from inst have "snd (handleCancelRegistration twoRegistrations ''r1'' Yes
      (Resolved (Some ''tok'')) (Resolved ()) (Resolved (Some ''tok'')) (Resolved [regR2])) =
     [AlertMsg ''Cancel Registration'' ''Are you sure you want to cancel this registration?'',
      CancelRegistration ''r1'' (the (Some ''tok'')),
      AlertMsg ''Success'' ''Registration cancelled successfully!''] @
     snd (fetchRegistrations twoRegistrations (Resolved (Some ''tok'')) (Resolved [regR2]))"
    by simp
  with fx have b: "snd (handleCancelRegistration twoRegistrations ''r1'' Yes
      (Resolved (Some ''tok'')) (Resolved ()) (Resolved (Some ''tok'')) (Resolved [regR2])) =
     [AlertMsg ''Cancel Registration'' ''Are you sure you want to cancel this registration?'',
      CancelRegistration ''r1'' ''tok'',
      AlertMsg ''Success'' ''Registration cancelled successfully!'',
      GetRegistrations ''tok'']"
    by simp
  from inst have "registrations (fst (handleCancelRegistration twoRegistrations ''r1'' Yes
      (Resolved (Some ''tok'')) (Resolved ()) (Resolved (Some ''tok'')) (Resolved [regR2]))) =
     (case Resolved (Some ''tok'') of
        Rejected \<Rightarrow> registrations twoRegistrations
      | Resolved t \<Rightarrow>
          (case Resolved [regR2] of
             Rejected \<Rightarrow> registrations twoRegistrations
           | Resolved data \<Rightarrow> if truthy t then data else registrations twoRegistrations))"
    by blast
  then have c: "registrations (fst (handleCancelRegistration twoRegistrations ''r1'' Yes
      (Resolved (Some ''tok'')) (Resolved ()) (Resolved (Some ''tok'')) (Resolved [regR2]))) =
     [regR2]"
    by simp
  from inst have d: "fst (handleCancelRegistration twoRegistrations ''r1'' Yes
      (Resolved (Some ''tok'')) Rejected (Resolved (Some ''tok'')) (Resolved [regR2])) =
     twoRegistrations"
    by simp
  from h a b c d show ?thesis by blast
qed

section \<open>Registrations of deleted events\<close>

text \<open>
  C5. A registration whose event is null is rendered as the card "Event Not Found": the
  list keeps one card per registration, and the card's Cancel button passes the
  registration's own id, for which the cancel call is made as for any other.
\<close>

theorem orphaned_registration_rendered:
  "eventId item = None \<Longrightarrow>
   renderRegistration rt item =
     RegCard (latin1 ''Event Not Found'') [latin1 ''This event has been deleted.''] None (reg_id item) \<and>
   (\<not> loading st \<and> \<not> truthy (error st) \<and> item \<in> set (registrations st) \<longrightarrow>
      (\<exists>cards. MyRegistrationsScreen rt st = RegsList cards \<and>
         length cards = length (registrations st) \<and>
         RegCard (latin1 ''Event Not Found'') [latin1 ''This event has been deleted.''] None (reg_id item)
           \<in> set cards)) \<and>
   (truthy token \<longrightarrow>
      CancelRegistration (reg_id item) (the token) \<in>
        set (snd (handleCancelRegistration st (cancelTarget (renderRegistration rt item)) Yes
          (Resolved token) response refreshTokenRead refreshResponse)))"
proof -
  assume orphan: "eventId item = None"
  let ?card = "RegCard (latin1 ''Event Not Found'') [latin1 ''This event has been deleted.''] None (reg_id item)"
  have card: "renderRegistration rt item = ?card"
    using orphan by (simp add: renderRegistration_def)
  have shown: "\<exists>cards. MyRegistrationsScreen rt st = RegsList cards \<and>
      length cards = length (registrations st) \<and> ?card \<in> set cards"
    if "\<not> loading st" "\<not> truthy (error st)" "item \<in> set (registrations st)"
  proof -
    from that have "MyRegistrationsScreen rt st =
        RegsList (map (renderRegistration rt) (registrations st))"
      by (simp add: MyRegistrationsScreen_def)
    moreover from that card have "?card \<in> set (map (renderRegistration rt) (registrations st))"
      by force
    ultimately show ?thesis by simp
  qed
  have cancel: "CancelRegistration (reg_id item) (the token) \<in>
      set (snd (handleCancelRegistration st (cancelTarget (renderRegistration rt item)) Yes
        (Resolved token) response refreshTokenRead refreshResponse))"
    if "truthy token"
    using that card
    by (cases response)
      (simp_all add: handleCancelRegistration_def cancel_onPress_def)
  from card shown cancel show ?thesis by blast
qed

theorem orphaned_registration_rendered_witness:
  "eventId regR2 = None \<and>
   renderRegistration sampleRuntime regR2 =
     RegCard (latin1 ''Event Not Found'') [latin1 ''This event has been deleted.''] None ''r2'' \<and>
   (\<exists>cards. MyRegistrationsScreen sampleRuntime twoRegistrations = RegsList cards \<and>
      length cards = 2 \<and>
      RegCard (latin1 ''Event Not Found'') [latin1 ''This event has been deleted.''] None ''r2'' \<in> set cards) \<and>
   CancelRegistration ''r2'' ''tok'' \<in>
     set (snd (handleCancelRegistration twoRegistrations
       (cancelTarget (renderRegistration sampleRuntime regR2)) Yes
       (Resolved (Some ''tok'')) (Resolved ()) (Resolved (Some ''tok'')) (Resolved [])))"
proof -
  have h: "eventId regR2 = None" by (simp add: regR2_def)
  have i: "reg_id regR2 = ''r2''" by (simp add: regR2_def)
  have s: "\<not> loading twoRegistrations \<and> \<not> truthy (error twoRegistrations) \<and>
      regR2 \<in> set (registrations twoRegistrations)"
    by (simp add: twoRegistrations_def)
  have n: "length (registrations twoRegistrations) = 2" by (simp add: twoRegistrations_def)
  have t: "truthy (Some ''tok'')" by simp
  note inst = orphaned_registration_rendered [OF h, of sampleRuntime twoRegistrations "Some ''tok''"
      "Resolved ()" "Resolved (Some ''tok'')" "Resolved []"]
  from inst i have a: "renderRegistration sampleRuntime regR2 =
      RegCard (latin1 ''Event Not Found'') [latin1 ''This event has been deleted.''] None ''r2''"
    by simp
  from inst s i n have b: "\<exists>cards. MyRegistrationsScreen sampleRuntime twoRegistrations = RegsList cards \<and>
      length cards = 2 \<and>
      RegCard (latin1 ''Event Not Found'') [latin1 ''This event has been deleted.''] None ''r2'' \<in> set cards"
    by simp
  from inst t have "CancelRegistration (reg_id regR2) (the (Some ''tok'')) \<in>
     set (snd (handleCancelRegistration twoRegistrations
       (cancelTarget (renderRegistration sampleRuntime regR2)) Yes
       (Resolved (Some ''tok'')) (Resolved ()) (Resolved (Some ''tok'')) (Resolved [])))"
    by blast
  then have c: "CancelRegistration ''r2'' ''tok'' \<in>
     set (snd (handleCancelRegistration twoRegistrations
       (cancelTarget (renderRegistration sampleRuntime regR2)) Yes
       (Resolved (Some ''tok'')) (Resolved ()) (Resolved (Some ''tok'')) (Resolved [])))"
    by (simp only: i option.sel)
  from h a b c show ?thesis by blast
qed

section \<open>Registering\<close>

text \<open>
  C6. \<open>handleRegister\<close> never changes the registrations screen's state (nor the home
  screen's). On success it calls the server, shows the confirmation and navigates back;
  its own state ends idle with no error.
\<close>

theorem register_leaves_ledger:
  "myRegistrations (fst (app_handleRegister ev app tokenRead response)) = myRegistrations app \<and>
   home (fst (app_handleRegister ev app tokenRead response)) = home app \<and>
   (truthy token \<longrightarrow>
      snd (app_handleRegister ev app (Resolved token) (Resolved u)) =
        [RegisterForEvent (ev_id ev) (the token),
         AlertMsg ''Success'' ''Registration successful!'', GoBack] \<and>
      eventDetails (fst (app_handleRegister ev app (Resolved token) (Resolved u))) =
        (eventDetails app)\<lparr>loading := False, error := None\<rparr>)"
  by (simp add: app_handleRegister_def handleRegister_def)

theorem register_leaves_ledger_witness:
  "truthy (Some ''tok'') \<and>
   myRegistrations (fst (app_handleRegister hackDay sampleApp (Resolved (Some ''tok''))
      (Resolved ()))) = twoRegistrations \<and>
   snd (app_handleRegister hackDay sampleApp (Resolved (Some ''tok'')) (Resolved ())) =
     [RegisterForEvent ''e1'' ''tok'', AlertMsg ''Success'' ''Registration successful!'', GoBack]"
proof -
  have t: "truthy (Some ''tok'')" by simp
  have i: "ev_id hackDay = ''e1''" by (simp add: hackDay_def)
  have m: "myRegistrations sampleApp = twoRegistrations" by (simp add: sampleApp_def)
  show ?thesis
    using t i m
      register_leaves_ledger [of hackDay sampleApp "Resolved (Some ''tok'')" "Resolved ()"
        "Some ''tok''" "()"]
    by simp
qed

section \<open>Overlapping refreshes\<close>

text \<open>
  C8 as stated fails. Two catalog refreshes are started; the second one's response
  arrives first, the first one's last. The events shown are those of the first refresh.
\<close>

theorem later_refresh_wins_counterexample:
  "events (homeScreen (home_run (home_mounted homeInitial)
      [HomeFocus, HomeFocus,
       GetEventsSettled 1 (Resolved [danceNight]),
       GetEventsSettled 0 (Resolved [hackDay])])) = [hackDay] \<and>
   [hackDay] \<noteq> [danceNight]"
  by (simp add: home_run_def home_mounted_def fetchEvents_def hackDay_neq_danceNight)

text \<open>
  C8, amended. When refresh A is started before refresh B and A's response arrives after
  B's, both successful, the state ends with A's result, for the catalog and for the ledger:
  every response overwrites the state when it arrives, and none is discarded.
\<close>

theorem last_response_wins:
  "events (homeScreen (home_run (home_mounted st)
      [HomeFocus, HomeFocus,
       GetEventsSettled 1 (Resolved b), GetEventsSettled 0 (Resolved a)])) = a \<and>
   filteredEvents (homeScreen (home_run (home_mounted st)
      [HomeFocus, HomeFocus,
       GetEventsSettled 1 (Resolved b), GetEventsSettled 0 (Resolved a)])) = a \<and>
   (truthy ta \<and> truthy tb \<longrightarrow>
      registrations (regsScreen (regs_run (regs_mounted rst)
        [RegsFocus, RegsFocus,
         TokenReadSettled 0 (Resolved ta), TokenReadSettled 1 (Resolved tb),
         GetRegistrationsSettled 1 (Resolved rb),
         GetRegistrationsSettled 0 (Resolved ra)])) = ra)"
  by (simp add: home_run_def home_mounted_def fetchEvents_def regs_run_def regs_mounted_def
      fetchRegistrations_start_def fetchRegistrations_token_def fetchRegistrations_response_def)

theorem last_response_wins_witness:
  "truthy (Some ''tok'') \<and>
   events (homeScreen (home_run (home_mounted homeInitial)
      [HomeFocus, HomeFocus,
       GetEventsSettled 1 (Resolved [danceNight]),
       GetEventsSettled 0 (Resolved [hackDay])])) = [hackDay] \<and>
   registrations (regsScreen (regs_run (regs_mounted twoRegistrations)
      [RegsFocus, RegsFocus,
       TokenReadSettled 0 (Resolved (Some ''tok'')), TokenReadSettled 1 (Resolved (Some ''tok'')),
       GetRegistrationsSettled 1 (Resolved [regR2]),
       GetRegistrationsSettled 0 (Resolved [regR1, regR2])])) = [regR1, regR2]"
proof -
  have t: "truthy (Some ''tok'')" by simp
  show ?thesis
    using t
      last_response_wins [of homeInitial "[danceNight]" "[hackDay]" "Some ''tok''" "Some ''tok''"
        twoRegistrations "[regR2]" "[regR1, regR2]"]
    by simp
qed

lemma home_focus_pending:
  "getEventsPending (home_run s (replicate n HomeFocus)) =
     getEventsPending s @ map (\<lambda>i. getEventsIssued s + i) [0..<n]"
proof (induction n arbitrary: s)
  case 0
  show ?case by (simp add: home_run_def)
next
  case (Suc n)
  have "home_run s (replicate (Suc n) HomeFocus) =
      home_run (home_step s HomeFocus) (replicate n HomeFocus)"
    by (simp add: home_run_def)
  then show ?case
    using Suc.IH [of "home_step s HomeFocus"]
    by (simp add: map_upt_Suc del: upt_Suc)
qed

lemma regs_focus_run:
  "0 < n \<Longrightarrow> regs_run (regs_mounted st) (replicate n RegsFocus) = regs_focused st n 0"
proof (induction n)
  case 0
  then show ?case by simp
next
  case (Suc n)
  show ?case
  proof (cases "n = 0")
    case True
    then show ?thesis
      by (simp add: regs_run_def regs_mounted_def regs_focused_def fetchRegistrations_start_def)
  next
    case False
    then have "regs_run (regs_mounted st) (replicate n RegsFocus) = regs_focused st n 0"
      using Suc.IH by simp
    moreover have "replicate (Suc n) RegsFocus = replicate n RegsFocus @ [RegsFocus]"
      by (simp add: replicate_append_same)
    ultimately show ?thesis
      by (simp add: regs_run_def regs_focused_def fetchRegistrations_start_def)
  qed
qed

lemma removeAll_upt_first: "m < n \<Longrightarrow> removeAll m [m..<n] = [Suc m..<n]"
  by (simp add: upt_conv_Cons)

lemma regs_token_step:
  "truthy tok \<Longrightarrow> m < n \<Longrightarrow>
   regs_step (regs_focused st n m) (TokenReadSettled m (Resolved tok)) =
     regs_focused st n (Suc m)"
  by (simp add: regs_focused_def fetchRegistrations_token_def removeAll_upt_first)

lemma regs_token_run:
  "truthy tok \<Longrightarrow> m \<le> n \<Longrightarrow>
   regs_run (regs_focused st n 0) (map (\<lambda>k. TokenReadSettled k (Resolved tok)) [0..<m]) =
     regs_focused st n m"
proof (induction m)
  case 0
  show ?case by (simp add: regs_run_def)
next
  case (Suc m)
  then have "regs_run (regs_focused st n 0)
      (map (\<lambda>k. TokenReadSettled k (Resolved tok)) [0..<m]) = regs_focused st n m"
    by simp
  moreover have "regs_step (regs_focused st n m)
      (TokenReadSettled m (Resolved tok)) = regs_focused st n (Suc m)"
    by (rule regs_token_step) (use Suc.prems in simp_all)
  ultimately show ?case by (simp add: regs_run_def)
qed

lemma regs_requests_in_flight:
  assumes "truthy tok"
  shows "getRegistrationsPending (regs_run (regs_mounted st)
      (replicate n RegsFocus @ map (\<lambda>k. TokenReadSettled k (Resolved tok)) [0..<n])) = [0..<n]"
proof (cases "n = 0")
  case True
  then show ?thesis by (simp add: regs_run_def regs_mounted_def)
next
  case False
  then have "regs_run (regs_mounted st) (replicate n RegsFocus) = regs_focused st n 0"
    by (simp add: regs_focus_run)
  then have "regs_run (regs_mounted st)
      (replicate n RegsFocus @ map (\<lambda>k. TokenReadSettled k (Resolved tok)) [0..<n]) =
      regs_run (regs_focused st n 0) (map (\<lambda>k. TokenReadSettled k (Resolved tok)) [0..<n])"
    by (simp add: regs_run_def)
  with assms have "regs_run (regs_mounted st)
      (replicate n RegsFocus @ map (\<lambda>k. TokenReadSettled k (Resolved tok)) [0..<n]) =
      regs_focused st n n"
    by (simp add: regs_token_run)
  then show ?thesis by (simp add: regs_focused_def)
qed

text \<open>
  C9 as stated fails. Two focus events with no response in between leave two catalog
  requests in flight.
\<close>

theorem single_refresh_in_flight_counterexample:
  "getEventsPending (home_run (home_mounted homeInitial) [HomeFocus, HomeFocus]) = [0, 1] \<and>
   \<not> length (getEventsPending (home_run (home_mounted homeInitial) [HomeFocus, HomeFocus])) \<le> 1"
  by (simp add: home_run_def home_mounted_def)

text \<open>
  C9, amended. Every focus event starts a new refresh at once, whether or not one is
  pending, and changes nothing else: \<open>n\<close> focus events in a row leave \<open>n\<close> catalog
  requests in flight. A focus of the registrations screen adds a pending token read and
  withdraws no request; a token read that settles with a token adds its request to those
  in flight whatever is pending; \<open>n\<close> focus events whose token reads have settled leave
  \<open>n\<close> registration requests in flight.
\<close>

theorem every_focus_starts_a_request:
  "getEventsPending (home_step s HomeFocus) = getEventsPending s @ [getEventsIssued s] \<and>
   homeScreen (home_step s HomeFocus) = homeScreen s \<and>
   length (getEventsPending (home_run (home_mounted st) (replicate n HomeFocus))) = n \<and>
   tokenReadPending (regs_step r RegsFocus) = tokenReadPending r @ [fetchesStarted r] \<and>
   getRegistrationsPending (regs_step r RegsFocus) = getRegistrationsPending r \<and>
   (truthy tok \<and> List.member (tokenReadPending r) k \<longrightarrow>
      getRegistrationsPending (regs_step r (TokenReadSettled k (Resolved tok))) =
        getRegistrationsPending r @ [k]) \<and>
   (truthy tok \<longrightarrow>
      getRegistrationsPending (regs_run (regs_mounted rst)
        (replicate n RegsFocus @ map (\<lambda>k. TokenReadSettled k (Resolved tok)) [0..<n])) =
        [0..<n] \<and>
      length (getRegistrationsPending (regs_run (regs_mounted rst)
        (replicate n RegsFocus @ map (\<lambda>k. TokenReadSettled k (Resolved tok)) [0..<n]))) = n)"
  by (simp add: home_focus_pending home_mounted_def regs_requests_in_flight
      fetchRegistrations_token_def)

theorem every_focus_starts_a_request_witness:
  "truthy (Some ''tok'') \<and>
   length (getEventsPending (home_run (home_mounted homeInitial) (replicate 3 HomeFocus))) = 3 \<and>
   tokenReadPending (regs_step (regs_step (regs_mounted twoRegistrations) RegsFocus) RegsFocus) =
     [0, 1] \<and>
   getRegistrationsPending (regs_run (regs_mounted twoRegistrations)
     [RegsFocus, RegsFocus,
      TokenReadSettled 0 (Resolved (Some ''tok'')),
      TokenReadSettled 1 (Resolved (Some ''tok''))]) = [0, 1]"
proof -
  have t: "truthy (Some ''tok'')" by simp
  have a: "tokenReadPending (regs_step (regs_mounted twoRegistrations) RegsFocus) = [0]"
    and b: "fetchesStarted (regs_step (regs_mounted twoRegistrations) RegsFocus) = 1"
    by (simp_all add: regs_mounted_def)
  have l: "replicate 2 RegsFocus @
      map (\<lambda>k. TokenReadSettled k (Resolved (Some ''tok''))) [0..<2] =
      [RegsFocus, RegsFocus,
       TokenReadSettled 0 (Resolved (Some ''tok'')),
       TokenReadSettled 1 (Resolved (Some ''tok''))]"
    by (simp add: numeral_2_eq_2 upt_rec)
  have u: "[0..<2] = [0, 1::nat]" by (simp add: numeral_2_eq_2 upt_rec)
  note inst3 = every_focus_starts_a_request [of "home_mounted homeInitial" homeInitial 3
      "regs_step (regs_mounted twoRegistrations) RegsFocus" "Some ''tok''" 0 twoRegistrations]
  note inst2 = every_focus_starts_a_request [of "home_mounted homeInitial" homeInitial 2
      "regs_step (regs_mounted twoRegistrations) RegsFocus" "Some ''tok''" 0 twoRegistrations]
  from inst3 have c: "length (getEventsPending (home_run (home_mounted homeInitial)
      (replicate 3 HomeFocus))) = 3"
    by blast
  from inst3 a b have d: "tokenReadPending (regs_step (regs_step (regs_mounted twoRegistrations)
      RegsFocus) RegsFocus) = [0, 1]"
    by simp
  from inst2 t have "getRegistrationsPending (regs_run (regs_mounted twoRegistrations)
        (replicate 2 RegsFocus @
           map (\<lambda>k. TokenReadSettled k (Resolved (Some ''tok''))) [0..<2])) = [0..<2]"
    by blast
  then have "getRegistrationsPending (regs_run (regs_mounted twoRegistrations)
     [RegsFocus, RegsFocus,
      TokenReadSettled 0 (Resolved (Some ''tok'')),
      TokenReadSettled 1 (Resolved (Some ''tok''))]) = [0..<2]"
    by (simp only: l)
  then have e: "getRegistrationsPending (regs_run (regs_mounted twoRegistrations)
     [RegsFocus, RegsFocus,
      TokenReadSettled 0 (Resolved (Some ''tok'')),
      TokenReadSettled 1 (Resolved (Some ''tok''))]) = [0, 1]"
    by (simp only: u)
  from t c d e show ?thesis by blast
qed

end
